theory Spec2Isabelle
  imports Complex_Main "HOL-Library.AList" "HOL-Library.Multiset"
begin

text \<open>
  A shallow embedding of the class \<open>MusicRecommendationEngine\<close> of \<open>app.py\<close>: feature
  extraction from track names, the preference model and its update on a play event,
  scoring, the smart shuffle, the download recommendations and the loading of the
  persisted document.

  Conventions. A Python \<open>str\<close> is a \<open>string\<close> whose characters stand for the code
  points 0 to 255. Python floats and integers that mix with them are real numbers, so
  arithmetic is exact. A \<open>dict\<close> is an association list in insertion order, read with
  \<open>map_of\<close> and written with \<open>AList.update\<close>, which replaces in place or appends as
  Python does. The clock (\<open>datetime.now()\<close>) and the random source are arguments. The
  model \<open>self.data\<close> is passed in and returned; writing the preferences file is outside
  the model, only the \<open>last_updated\<close> stamp that \<open>_save_preferences\<close> sets is kept.
\<close>

section \<open>Strings\<close>

text \<open>
  \<open>is_space\<close> is \<open>str.isspace\<close> (and the regular expression class \<open>\s\<close>) and
  \<open>lower_char\<close> is \<open>str.lower\<close>, both on code points below 256. \<open>split_once sep s\<close>
  is \<open>s.split(sep, 1)\<close> when \<open>sep\<close> occurs in \<open>s\<close> (the parts left and right of
  the first occurrence) and \<open>None\<close> when it does not; \<open>contains sub s\<close> is
  \<open>sub in s\<close>. \<open>splitext_root\<close> is the first component of \<open>os.path.splitext\<close> on a
  POSIX system. \<open>re_split is_sep\<close> is \<open>re.split\<close> with the pattern of the source, one
  or more characters among white space and \<open>-_.()[],&\<close>: the pieces between the runs of
  separators, with an empty piece where the string starts or ends with a separator.
\<close>

definition is_space :: "char \<Rightarrow> bool" where
  "is_space c = (let n = (of_char c :: nat) in
     (9 \<le> n \<and> n \<le> 13) \<or> (28 \<le> n \<and> n \<le> 32) \<or> n = 133 \<or> n = 160)"

definition lower_char :: "char \<Rightarrow> char" where
  "lower_char c = (let n = (of_char c :: nat) in
     if (65 \<le> n \<and> n \<le> 90) \<or> (192 \<le> n \<and> n \<le> 222 \<and> n \<noteq> 215)
     then char_of (n + 32) else c)"

definition lower :: "string \<Rightarrow> string" where
  "lower s = map lower_char s"

definition strip :: "string \<Rightarrow> string" where
  "strip s = rev (dropWhile is_space (rev (dropWhile is_space s)))"

fun startswith :: "string \<Rightarrow> string \<Rightarrow> bool" where
  "startswith [] s = True"
| "startswith (p # ps) [] = False"
| "startswith (p # ps) (c # cs) = (p = c \<and> startswith ps cs)"

fun split_once :: "string \<Rightarrow> string \<Rightarrow> (string \<times> string) option" where
  "split_once sep [] = (if sep = [] then Some ([], []) else None)"
| "split_once sep (c # cs) =
     (if startswith sep (c # cs) then Some ([], drop (length sep) (c # cs))
      else (case split_once sep cs of
              None \<Rightarrow> None
            | Some (l, r) \<Rightarrow> Some (c # l, r)))"

definition contains :: "string \<Rightarrow> string \<Rightarrow> bool" where
  "contains sub s = (split_once sub s \<noteq> None)"

definition rfind :: "char \<Rightarrow> string \<Rightarrow> int" where
  "rfind c s = (case filter (\<lambda>i. s ! i = c) (rev [0..<length s]) of
                  [] \<Rightarrow> - 1
                | i # _ \<Rightarrow> int i)"

definition splitext_root :: "string \<Rightarrow> string" where
  "splitext_root p =
     (let sepIndex = rfind (CHR ''/'') p;
          dotIndex = rfind (CHR ''.'') p
      in if dotIndex > sepIndex \<and>
            list_ex (\<lambda>c. c \<noteq> CHR ''.'')
              (take (nat (dotIndex - (sepIndex + 1))) (drop (nat (sepIndex + 1)) p))
         then take (nat dotIndex) p
         else p)"

definition is_sep :: "char \<Rightarrow> bool" where
  "is_sep c = (is_space c \<or> c \<in> set ''-_.()[],&'')"

function re_split :: "(char \<Rightarrow> bool) \<Rightarrow> string \<Rightarrow> string list" where
  "re_split P s =
     (let w = takeWhile (\<lambda>c. \<not> P c) s;
          rest = dropWhile (\<lambda>c. \<not> P c) s
      in if rest = [] then [w] else w # re_split P (dropWhile P rest))"
  by pat_completeness auto
termination
proof (relation "measure (\<lambda>(P, s). length s)")
  show "wf (measure (\<lambda>(P, s). length s))" by simp
next
  fix P :: "char \<Rightarrow> bool" and s w rest :: string
  assume r: "rest = dropWhile (\<lambda>c. \<not> P c) s" and ne: "rest \<noteq> []"
  from ne obtain c cs where rc: "rest = c # cs" by (cases rest) auto
  have "P c" using r rc by (metis (mono_tags, lifting) hd_dropWhile list.sel(1) ne)
  then have "length (dropWhile P rest) \<le> length cs"
    using rc by (simp add: length_dropWhile_le)
  also have "\<dots> < length rest" using rc by simp
  also have "\<dots> \<le> length s" using r by (simp add: length_dropWhile_le)
  finally show "((P, dropWhile P rest), (P, s)) \<in> measure (\<lambda>(P, s). length s)" by simp
qed

declare re_split.simps [simp del]

definition keyword_tokens :: "string \<Rightarrow> string list" where
  "keyword_tokens s =
     map strip (filter (\<lambda>w. length (strip w) \<ge> 3) (re_split is_sep s))"


section \<open>Feature extraction\<close>

text \<open>
  \<open>_extract_features\<close>. The two pattern tables keep the order of the source, and
  \<open>match_patterns\<close> is the double loop with its \<open>break\<close>: a tag is listed once when any
  of its patterns is a substring. In the \<open>" - "\<close> branch the name analysed further is the
  lower-cased right part; in the \<open>" by "\<close> branch it stays the whole lower-cased name.
  The field \<open>keywords\<close> of the source is \<open>keywords_of\<close> here.
\<close>

record features =
  keywords_of :: "string list"
  artist :: "string option"
  potential_genre :: "string list"
  mood_hints :: "string list"
  language_hints :: "string list"

definition genre_patterns :: "(string \<times> string list) list" where
  "genre_patterns =
     [(''electronic'', [''remix'', ''edm'', ''house'', ''techno'', ''dubstep'', ''trance'',
                        ''bass'', ''drop'', ''beat'']),
      (''hiphop'', [''rap'', ''hip'', ''hop'', ''trap'', ''flow'', ''bars'', ''cypher'',
                    ''freestyle'']),
      (''rock'', [''rock'', ''metal'', ''guitar'', ''punk'', ''grunge'', ''alternative'']),
      (''pop'', [''pop'', ''dance'', ''party'', ''club'', ''hit'']),
      (''classical'', [''symphony'', ''orchestra'', ''classical'', ''piano'', ''violin'',
                       ''opus'']),
      (''jazz'', [''jazz'', ''blues'', ''swing'', ''soul'', ''funk'']),
      (''ambient'', [''ambient'', ''chill'', ''relax'', ''calm'', ''peaceful'', ''meditation'',
                     ''sleep'']),
      (''indian'', [''bollywood'', ''hindi'', ''punjabi'', ''desi'', ''bhangra'', ''indian'']),
      (''lofi'', [''lofi'', ''lo-fi'', ''study'', ''beats'', ''aesthetic'']),
      (''acoustic'', [''acoustic'', ''unplugged'', ''live'', ''cover''])]"

definition mood_patterns :: "(string \<times> string list) list" where
  "mood_patterns =
     [(''energetic'', [''energy'', ''hype'', ''fire'', ''lit'', ''party'', ''dance'', ''fast'',
                       ''power'']),
      (''sad'', [''sad'', ''cry'', ''tears'', ''alone'', ''lonely'', ''heartbreak'', ''broken'',
                 ''miss'']),
      (''happy'', [''happy'', ''joy'', ''smile'', ''love'', ''sunshine'', ''good'', ''best'']),
      (''romantic'', [''love'', ''romance'', ''heart'', ''kiss'', ''forever'', ''baby'',
                      ''darling'']),
      (''motivational'', [''motivation'', ''inspire'', ''dream'', ''rise'', ''success'',
                          ''champion'', ''win''])]"

definition match_patterns :: "(string \<times> string list) list \<Rightarrow> string \<Rightarrow> string list" where
  "match_patterns table name_lower =
     map fst (filter (\<lambda>(tag, patterns). list_ex (\<lambda>p. contains p name_lower) patterns) table)"

definition extract_features :: "string \<Rightarrow> features" where
  "extract_features song_name =
     (let name = splitext_root song_name;
          name_lower0 = lower name;
          (art, name_lower) =
            (case split_once '' - '' name of
               Some (l, r) \<Rightarrow> (Some (strip l), lower r)
             | None \<Rightarrow>
                 (case split_once '' by '' name_lower0 of
                    Some (l, r) \<Rightarrow> (Some (strip r), name_lower0)
                  | None \<Rightarrow> (None, name_lower0)))
      in \<lparr> keywords_of = keyword_tokens name_lower,
           artist = art,
           potential_genre = match_patterns genre_patterns name_lower,
           mood_hints = match_patterns mood_patterns name_lower,
           language_hints = [] \<rparr>)"

definition truthy :: "string option \<Rightarrow> bool" where
  "truthy a = (case a of None \<Rightarrow> False | Some s \<Rightarrow> s \<noteq> [])"

section \<open>The preference model\<close>

text \<open>
  \<open>prefs\<close> is the dictionary \<open>self.data\<close> with well-typed fields, \<open>song_stat\<close> an
  entry of \<open>song_stats\<close>, and \<open>env\<close> one reading of the clock: the hour and the ISO
  timestamp. \<open>default_prefs\<close> is the default of \<open>_load_preferences\<close>, with one empty
  bucket per hour, keyed by \<open>str(h)\<close>.
\<close>

type_synonym ('k, 'v) dict = "('k \<times> 'v) list"

record song_stat =
  play_count :: int
  skip_count :: int
  total_completion :: real
  stat_features :: features
  first_played :: string
  last_played :: "string option"

record prefs =
  song_stats :: "(string, song_stat) dict"
  keyword_scores :: "(string, real) dict"
  artist_scores :: "(string, real) dict"
  time_preferences :: "(string, (string, int) dict) dict"
  genre_hints :: "(string, real) dict"
  total_plays :: int
  total_skips :: int
  learning_rate :: real
  last_updated :: "string option"

record env =
  now_hour :: nat
  now_iso :: string

definition digit_char :: "nat \<Rightarrow> char" where
  "digit_char d = char_of (48 + d)"

fun str_nat :: "nat \<Rightarrow> string" where
  "str_nat n = (if n < 10 then [digit_char n] else str_nat (n div 10) @ [digit_char (n mod 10)])"

declare str_nat.simps [simp del]

definition default_prefs :: prefs where
  "default_prefs =
     \<lparr> song_stats = [],
       keyword_scores = [],
       artist_scores = [],
       time_preferences = map (\<lambda>h. (str_nat h, [])) [0..<24],
       genre_hints = [],
       total_plays = 0,
       total_skips = 0,
       learning_rate = 0.1,
       last_updated = None \<rparr>"

section \<open>Recording a play\<close>

text \<open>
  \<open>record_play\<close>. \<open>bump_weight\<close> is the body of the three weight loops: seed 0.5 when
  the key is new, add \<open>lr * delta\<close>, clamp to \<open>[0, 1]\<close>. \<open>play_reward\<close> is the
  branch of a play that is not a skip and returns the completion and the reward. The
  time-preference loop indexes \<open>time_preferences[current_hour]\<close>: when the first five
  keywords are not empty and the model has no bucket for the hour, Python raises
  \<open>KeyError\<close> after the weights were updated and before the save; the result is then
  \<open>Inl\<close> and the model is the one updated so far.
\<close>

datatype py_error = KeyError string

record play_result =
  success :: bool
  reward :: real

definition bump_weight :: "real \<Rightarrow> real \<Rightarrow> (string, real) dict \<Rightarrow> string \<Rightarrow> (string, real) dict" where
  "bump_weight lr delta d k =
     (let seeded = (case map_of d k of None \<Rightarrow> 0.5 | Some v \<Rightarrow> v)
      in AList.update k (max 0 (min 1 (seeded + lr * delta))) d)"

definition count_up :: "(string, int) dict \<Rightarrow> string \<Rightarrow> (string, int) dict" where
  "count_up d k = AList.update k ((case map_of d k of None \<Rightarrow> 0 | Some c \<Rightarrow> c) + 1) d"

definition play_reward :: "bool \<Rightarrow> real \<Rightarrow> real \<Rightarrow> real \<times> real" where
  "play_reward completed duration_played total_duration =
     (let completion = (if total_duration > 0 then min 1 (duration_played / total_duration)
                        else if completed then 1 else 0.5)
      in (completion, completion * 0.5 + (if completed then 0.5 else 0)))"

definition record_play ::
  "env \<Rightarrow> prefs \<Rightarrow> string \<Rightarrow> bool \<Rightarrow> real \<Rightarrow> real \<Rightarrow> bool \<Rightarrow> (py_error + play_result) \<times> prefs" where
  "record_play e m song_name completed duration_played total_duration skipped =
     (let feats = extract_features song_name;
          current_hour = str_nat (now_hour e);
          stats0 = (case map_of (song_stats m) song_name of
                      None \<Rightarrow> \<lparr> play_count = 0, skip_count = 0, total_completion = 0,
                                 stat_features = feats, first_played = now_iso e,
                                 last_played = None \<rparr>
                    | Some st \<Rightarrow> st);
          stats1 = stats0 \<lparr> play_count := play_count stats0 + 1,
                            last_played := Some (now_iso e) \<rparr>;
          (stats2, skips, rew) =
            (if skipped
             then (stats1 \<lparr> skip_count := skip_count stats1 + 1 \<rparr>, total_skips m + 1, - 0.3)
             else (let (completion, r) = play_reward completed duration_played total_duration
                   in (stats1 \<lparr> total_completion := total_completion stats1 + completion \<rparr>,
                       total_skips m, r)));
          lr = learning_rate m;
          m1 = m \<lparr> song_stats := AList.update song_name stats2 (song_stats m),
                   total_plays := total_plays m + 1,
                   total_skips := skips,
                   keyword_scores :=
                     foldl (bump_weight lr (rew - 0.5)) (keyword_scores m) (keywords_of feats),
                   artist_scores :=
                     (if truthy (artist feats)
                      then bump_weight lr (rew - 0.3) (artist_scores m) (lower (the (artist feats)))
                      else artist_scores m),
                   genre_hints :=
                     foldl (bump_weight lr (rew - 0.5)) (genre_hints m) (potential_genre feats) \<rparr>;
          top5 = take 5 (keywords_of feats)
      in if top5 = [] then (Inr \<lparr> success = True, reward = rew \<rparr>,
                            m1 \<lparr> last_updated := Some (now_iso e) \<rparr>)
         else (case map_of (time_preferences m1) current_hour of
                 None \<Rightarrow> (Inl (KeyError current_hour), m1)
               | Some bucket \<Rightarrow>
                   (Inr \<lparr> success = True, reward = rew \<rparr>,
                    m1 \<lparr> time_preferences :=
                           AList.update current_hour (foldl count_up bucket top5)
                             (time_preferences m1),
                         last_updated := Some (now_iso e) \<rparr>)))"


section \<open>Scoring\<close>

text \<open>
  \<open>calculate_song_score\<close>. \<open>score_data_of\<close> is the returned dictionary; the method
  assigns nothing to \<open>self.data\<close>, so \<open>calculate_song_score\<close> returns the model as it
  received it.
\<close>

record score_result =
  score :: real
  components :: "(string, real) dict"
  score_features :: features

definition score_data_of :: "env \<Rightarrow> prefs \<Rightarrow> string \<Rightarrow> score_result" where
  "score_data_of e m song_name =
     (let feats = extract_features song_name;
          current_hour = str_nat (now_hour e);
          score0 = 0.5;
          comps0 = [];
          known = List.map_filter (map_of (keyword_scores m)) (keywords_of feats);
          keyword_count = length known;
          (score1, comps1) =
            (if keyword_count > 0
             then (let keyword_score = sum_list known / real keyword_count
                   in (score0 + (keyword_score - 0.5) * 0.3,
                       comps0 @ [(''keywords'', keyword_score)]))
             else (score0, comps0));
          (score2, comps2) =
            (if truthy (artist feats)
             then (case map_of (artist_scores m) (lower (the (artist feats))) of
                     Some artist_score \<Rightarrow>
                       (score1 + (artist_score - 0.5) * 0.25,
                        comps1 @ [(''artist'', artist_score)])
                   | None \<Rightarrow> (score1, comps1))
             else (score1, comps1));
          (score3, comps3) =
            (if potential_genre feats \<noteq> []
             then (let genre_score =
                         sum_list (List.map_filter (map_of (genre_hints m)) (potential_genre feats))
                           / real (length (potential_genre feats))
                   in (score2 + (genre_score - 0.5) * 0.2,
                       comps2 @ [(''genre'', genre_score)]))
             else (score2, comps2));
          time_prefs = (case map_of (time_preferences m) current_hour of
                          None \<Rightarrow> [] | Some b \<Rightarrow> b);
          time_boost = sum_list (List.map_filter (map_of time_prefs) (keywords_of feats));
          score4 = (if time_boost > 0 then score3 + min 0.1 (real_of_int time_boost / 100)
                    else score3);
          (score5, comps5) =
            (case map_of (song_stats m) song_name of
               None \<Rightarrow> (score4, comps3)
             | Some stats \<Rightarrow>
                 (let pc = play_count stats;
                      skip_ratio = real_of_int (skip_count stats) / real_of_int (max 1 pc);
                      sa = (if pc > 0 then score4 + min 0.15 (ln (real_of_int (pc + 1)) * 0.05)
                            else score4);
                      sb = sa - skip_ratio * 0.2
                  in if pc > 0
                     then (let avg_completion = total_completion stats / real_of_int pc
                           in (sb + (avg_completion - 0.5) * 0.15,
                               comps3 @ [(''completion'', avg_completion)]))
                     else (sb, comps3)))
      in \<lparr> score = max 0 (min 1 score5), components = comps5, score_features = feats \<rparr>)"

definition calculate_song_score :: "env \<Rightarrow> prefs \<Rightarrow> string \<Rightarrow> score_result \<times> prefs" where
  "calculate_song_score e m song_name = (score_data_of e m song_name, m)"

section \<open>Smart shuffle\<close>

text \<open>
  \<open>get_smart_shuffle_order\<close>. The random source is a list of raw draws, consumed from
  the front (0 once it is exhausted): \<open>randbelow n\<close> reduces a draw modulo \<open>n\<close>,
  \<open>randint a b\<close> is \<open>a + randbelow (b - a + 1)\<close>, and \<open>shuffle\<close> is the loop of
  \<open>random.shuffle\<close>, swapping position \<open>i\<close> with a position drawn below \<open>i + 1\<close>
  for \<open>i\<close> from the last index down to 1. \<open>interleave\<close> is the \<open>while\<close> loop with its
  two indices and the result built so far. \<open>sort_desc\<close> is the stable sort with
  \<open>reverse=True\<close>: descending keys, equal keys in their original order.
\<close>

fun draw :: "nat list \<Rightarrow> nat \<times> nat list" where
  "draw [] = (0, [])"
| "draw (r # rs) = (r, rs)"

definition randbelow :: "nat \<Rightarrow> nat list \<Rightarrow> nat \<times> nat list" where
  "randbelow n rng = (let (r, rng') = draw rng in (r mod n, rng'))"

definition randint :: "nat \<Rightarrow> nat \<Rightarrow> nat list \<Rightarrow> nat \<times> nat list" where
  "randint a b rng = (let (r, rng') = randbelow (b - a + 1) rng in (a + r, rng'))"

fun shuffle_from :: "nat \<Rightarrow> 'a list \<Rightarrow> nat list \<Rightarrow> 'a list \<times> nat list" where
  "shuffle_from 0 xs rng = (xs, rng)"
| "shuffle_from (Suc i) xs rng =
     (let (j, rng') = randbelow (Suc i + 1) rng
      in shuffle_from i (xs[Suc i := xs ! j, j := xs ! Suc i]) rng')"

definition shuffle :: "'a list \<Rightarrow> nat list \<Rightarrow> 'a list \<times> nat list" where
  "shuffle xs rng = shuffle_from (length xs - 1) xs rng"

function interleave ::
  "'a list \<Rightarrow> 'a list \<Rightarrow> nat \<Rightarrow> nat \<Rightarrow> 'a list \<Rightarrow> nat list \<Rightarrow> 'a list \<times> nat list" where
  "interleave preferred others pref_idx other_idx result rng =
     (if pref_idx < length preferred \<or> other_idx < length others
      then (let pref_count = fst (randint 2 3 rng);
                rng1 = snd (randint 2 3 rng);
                taken = take pref_count (drop pref_idx preferred);
                result1 = result @ taken;
                pref_idx1 = pref_idx + length taken
            in if other_idx < length others
               then interleave preferred others pref_idx1 (other_idx + 1)
                      (result1 @ [others ! other_idx]) rng1
               else interleave preferred others pref_idx1 other_idx result1 rng1)
      else (result, rng))"
  by pat_completeness auto
termination
  by (relation "measure (\<lambda>(p, oth, pi, oi, r, g). (length p - pi) + (length oth - oi))")
     (auto simp: randint_def randbelow_def split: prod.splits)

declare interleave.simps [simp del]

record scored_song =
  sname :: string
  sscore :: real
  sdata :: score_result

definition sort_desc :: "('a \<Rightarrow> real) \<Rightarrow> 'a list \<Rightarrow> 'a list" where
  "sort_desc key xs = sort_key (\<lambda>x. - key x) xs"

definition get_smart_shuffle_order ::
  "env \<Rightarrow> prefs \<Rightarrow> string list \<Rightarrow> nat list \<Rightarrow> scored_song list \<times> nat list" where
  "get_smart_shuffle_order e m songs rng =
     (if songs = [] then ([], rng)
      else (let scored_songs =
                  map (\<lambda>song. let score_data = fst (calculate_song_score e m song)
                               in \<lparr> sname = song, sscore = score score_data,
                                    sdata = score_data \<rparr>) songs;
                sorted_songs = sort_desc sscore scored_songs;
                mid = length sorted_songs div 2;
                (preferred, rng1) = shuffle (take (max 1 mid) sorted_songs) rng;
                (others, rng2) = shuffle (drop mid sorted_songs) rng1
            in interleave preferred others 0 0 [] rng2))"


section \<open>Download recommendations\<close>

text \<open>
  \<open>get_download_recommendations\<close>. \<open>title\<close> is \<open>str.title\<close>: a character after a
  cased character is lower-cased, any other is title-cased. Title-casing leaves the code
  points below 256 for three letters (U+00DF becomes the two letters \<open>Ss\<close>, U+00B5
  becomes U+039C, U+00FF becomes U+0178), so \<open>title\<close> returns a list of code points,
  and the \<open>reason\<close> of a recommendation, the one text built with it, is such a list;
  \<open>codepoints\<close> turns a string into one. The key \<open>type\<close> of a recommendation is the
  field \<open>kind\<close>. \<open>py_take cnt xs\<close> is the slice \<open>xs[:cnt]\<close>, also for a negative
  \<open>cnt\<close>.
\<close>

record recommendation =
  query :: string
  reason :: "nat list"
  confidence :: real
  kind :: string

definition is_cased :: "char \<Rightarrow> bool" where
  "is_cased c = (let n = (of_char c :: nat) in
     (65 \<le> n \<and> n \<le> 90) \<or> (97 \<le> n \<and> n \<le> 122) \<or> n = 170 \<or> n = 181 \<or> n = 186 \<or>
     (192 \<le> n \<and> n \<noteq> 215 \<and> n \<noteq> 247))"

definition codepoints :: "string \<Rightarrow> nat list" where
  "codepoints s = map of_char s"

definition title_char :: "char \<Rightarrow> nat list" where
  "title_char c = (let n = (of_char c :: nat) in
     if (97 \<le> n \<and> n \<le> 122) \<or> (224 \<le> n \<and> n \<le> 254 \<and> n \<noteq> 247) then [n - 32]
     else if n = 223 then [83, 115]
     else if n = 181 then [924]
     else if n = 255 then [376]
     else [n])"

fun title_from :: "bool \<Rightarrow> string \<Rightarrow> nat list" where
  "title_from previous_is_cased [] = []"
| "title_from previous_is_cased (c # cs) =
     (if previous_is_cased then [of_char (lower_char c)] else title_char c)
       @ title_from (is_cased c) cs"

definition title :: "string \<Rightarrow> nat list" where
  "title s = title_from False s"

fun join :: "string \<Rightarrow> string list \<Rightarrow> string" where
  "join sep [] = []"
| "join sep [x] = x"
| "join sep (x # y # ys) = x @ sep @ join sep (y # ys)"

definition py_take :: "int \<Rightarrow> 'a list \<Rightarrow> 'a list" where
  "py_take cnt xs =
     (if cnt \<ge> 0 then take (nat cnt) xs else take (length xs - nat (- cnt)) xs)"

definition genre_queries :: "(string \<times> string) list" where
  "genre_queries =
     [(''electronic'', ''best electronic dance music 2024''),
      (''hiphop'', ''top hip hop rap songs''),
      (''rock'', ''best rock songs playlist''),
      (''pop'', ''top pop hits 2024''),
      (''classical'', ''beautiful classical music pieces''),
      (''jazz'', ''best jazz songs relaxing''),
      (''ambient'', ''chill ambient music relax''),
      (''indian'', ''top bollywood hindi songs''),
      (''lofi'', ''lofi hip hop beats study''),
      (''acoustic'', ''acoustic covers popular songs'')]"

definition artist_rec :: "string \<times> real \<Rightarrow> recommendation" where
  "artist_rec p =
     \<lparr> query = fst p @ '' popular songs'',
       reason = codepoints ''You seem to enjoy '' @ title (fst p),
       confidence = snd p,
       kind = ''artist'' \<rparr>"

definition genre_rec :: "string \<times> real \<Rightarrow> recommendation" where
  "genre_rec p =
     \<lparr> query = (case map_of genre_queries (fst p) of
                  Some q \<Rightarrow> q
                | None \<Rightarrow> ''best '' @ fst p @ '' music''),
       reason = codepoints (''Based on your '' @ fst p @ '' listening patterns''),
       confidence = snd p,
       kind = ''genre'' \<rparr>"

definition time_recs :: "nat \<Rightarrow> recommendation list" where
  "time_recs current_hour =
     (if 22 \<le> current_hour \<or> current_hour < 6
      then [\<lparr> query = ''calm relaxing night music'',
               reason = codepoints ''Perfect for late night listening'',
               confidence = 0.6, kind = ''time'' \<rparr>]
      else if 6 \<le> current_hour \<and> current_hour < 10
      then [\<lparr> query = ''morning motivation music energetic'',
               reason = codepoints ''Great for starting your day'',
               confidence = 0.6, kind = ''time'' \<rparr>]
      else [])"

definition get_download_recommendations :: "env \<Rightarrow> prefs \<Rightarrow> int \<Rightarrow> recommendation list" where
  "get_download_recommendations e m cnt =
     (let top_keywords = take 10 (sort_desc snd (keyword_scores m));
          top_artists = take 5 (sort_desc snd (artist_scores m));
          top_genres = take 3 (sort_desc snd (genre_hints m));
          from_artists = map artist_rec (filter (\<lambda>p. snd p > 0.55) (take 3 top_artists));
          from_genres = map genre_rec (filter (\<lambda>p. snd p > 0.55) top_genres);
          strong_keywords = take 3 (map fst (filter (\<lambda>p. snd p > 0.6) top_keywords));
          from_keywords =
            (if length top_keywords \<ge> 2 \<and> strong_keywords \<noteq> []
             then [\<lparr> query = join '' '' (take 2 strong_keywords) @ '' songs'',
                      reason = codepoints (''Based on your interest in ''
                                             @ join '', '' (take 2 strong_keywords)),
                      confidence = 0.7, kind = ''keywords'' \<rparr>]
             else []);
          recommendations = from_artists @ from_genres @ from_keywords @ time_recs (now_hour e)
      in py_take cnt (sort_desc confidence recommendations))"

section \<open>Loading the persisted document\<close>

text \<open>
  \<open>_load_preferences\<close>. \<open>stored\<close> is what the path may hold: no file, a file that
  cannot be read, a file that is not JSON, or a JSON value. \<open>merge_key\<close> is one round
  of the merge loop, \<open>if key not in loaded: loaded[key] = default[key]\<close>, on each kind of
  JSON value: the membership test raises \<open>TypeError\<close> on null, booleans and numbers, and
  the assignment raises it on arrays and strings. Every exception ends in the default
  document.
\<close>

datatype json =
    JNull
  | JBool bool
  | JInt int
  | JFloat real
  | JStr string
  | JArr "json list"
  | JObj "(string \<times> json) list"

datatype stored = NoFile | ReadFailure | ParseFailure | Parsed json

definition default_fields :: "(string \<times> json) list" where
  "default_fields =
     [(''song_stats'', JObj []),
      (''keyword_scores'', JObj []),
      (''artist_scores'', JObj []),
      (''time_preferences'', JObj (map (\<lambda>h. (str_nat h, JObj [])) [0..<24])),
      (''genre_hints'', JObj []),
      (''total_plays'', JInt 0),
      (''total_skips'', JInt 0),
      (''learning_rate'', JFloat 0.1),
      (''last_updated'', JNull)]"

datatype load_error = TypeError

definition merge_key :: "json \<Rightarrow> string \<times> json \<Rightarrow> load_error + json" where
  "merge_key loaded kv =
     (case loaded of
        JObj entries \<Rightarrow>
          (if map_of entries (fst kv) = None
           then Inr (JObj (AList.update (fst kv) (snd kv) entries))
           else Inr loaded)
      | JArr elems \<Rightarrow> (if JStr (fst kv) \<in> set elems then Inr loaded else Inl TypeError)
      | JStr str \<Rightarrow> (if contains (fst kv) str then Inr loaded else Inl TypeError)
      | _ \<Rightarrow> Inl TypeError)"

fun merge_defaults :: "json \<Rightarrow> (string \<times> json) list \<Rightarrow> load_error + json" where
  "merge_defaults loaded [] = Inr loaded"
| "merge_defaults loaded (kv # rest) =
     (case merge_key loaded kv of
        Inl err \<Rightarrow> Inl err
      | Inr loaded' \<Rightarrow> merge_defaults loaded' rest)"

definition load_preferences :: "stored \<Rightarrow> json" where
  "load_preferences file =
     (case file of
        NoFile \<Rightarrow> JObj default_fields
      | ReadFailure \<Rightarrow> JObj default_fields
      | ParseFailure \<Rightarrow> JObj default_fields
      | Parsed loaded \<Rightarrow>
          (case merge_defaults loaded default_fields of
             Inl err \<Rightarrow> JObj default_fields
           | Inr merged \<Rightarrow> merged))"

section \<open>Sequences of play events and the weight range\<close>

text \<open>
  A \<open>play_event\<close> is the arguments of one call of \<open>record_play\<close> with the clock at
  that moment; \<open>record_plays\<close> makes the calls one after the other on the model, as the
  route \<open>/api/recommend/record\<close> does, going on after a call that raised.
  \<open>weights_in_unit\<close> says that every stored keyword, artist and genre weight lies in
  \<open>[0, 1]\<close>.
\<close>

record play_event =
  ev_env :: env
  ev_song :: string
  ev_completed :: bool
  ev_duration_played :: real
  ev_total_duration :: real
  ev_skipped :: bool

fun record_plays :: "prefs \<Rightarrow> play_event list \<Rightarrow> prefs" where
  "record_plays m [] = m"
| "record_plays m (ev # evs) =
     record_plays
       (snd (record_play (ev_env ev) m (ev_song ev) (ev_completed ev) (ev_duration_played ev)
               (ev_total_duration ev) (ev_skipped ev))) evs"

definition in_unit :: "(string, real) dict \<Rightarrow> bool" where
  "in_unit d = list_all (\<lambda>p. 0 \<le> snd p \<and> snd p \<le> 1) d"

definition weights_in_unit :: "prefs \<Rightarrow> bool" where
  "weights_in_unit m =
     (in_unit (keyword_scores m) \<and> in_unit (artist_scores m) \<and> in_unit (genre_hints m))"

text \<open>
  \<open>not_raised d d'\<close> compares a weight map before (\<open>d\<close>) and after (\<open>d'\<close>) an
  update: a key present before is still present and its weight is not larger; a key that
  is new has a weight strictly below the seed 0.5.
\<close>

definition not_raised :: "(string, real) dict \<Rightarrow> (string, real) dict \<Rightarrow> bool" where
  "not_raised d d' =
     (\<forall>k. case map_of d k of
             Some w \<Rightarrow> (case map_of d' k of Some w' \<Rightarrow> w' \<le> w | None \<Rightarrow> False)
           | None \<Rightarrow> (case map_of d' k of Some w' \<Rightarrow> w' < 0.5 | None \<Rightarrow> True))"

text \<open>
  A sample model for the recommendation example: one artist well above the 0.55
  threshold, everything else at or below it.
\<close>

definition nova_fan :: prefs where
  "nova_fan = default_prefs \<lparr> keyword_scores := [(''night'', 0.55), (''drive'', 0.5)],
                             artist_scores := [(''the band'', 0.55), (''dj nova'', 0.8)],
                             genre_hints := [(''rock'', 0.4)] \<rparr>"

section \<open>Properties\<close>

subsection \<open>A first play on a fresh model\<close>

lemma feats_dj_nova:
  "extract_features ''DJ Nova - Night Drive'' =
     \<lparr> keywords_of = [''night'', ''drive''], artist = Some ''DJ Nova'',
       potential_genre = [], mood_hints = [], language_hints = [] \<rparr>"
  by code_simp

lemma lower_dj_nova: "lower ''DJ Nova'' = ''dj nova''"
  by code_simp

lemma default_hour_bucket:
  assumes "h < 24"
  shows "map_of (time_preferences default_prefs) (str_nat h) = Some []"
proof -
  have "list_all (\<lambda>h. map_of (time_preferences default_prefs) (str_nat h) = Some []) [0..<24]"
    by code_simp
  with assms show ?thesis by (simp add: list_all_iff)
qed

text \<open>
  Claim C5. On the fresh model, at any hour of the day, recording the completed play
  \<open>record_play(''DJ Nova - Night Drive'', completed=True, duration_played=180,
  total_duration=180, skipped=False)\<close> computes completion 1 and reward 1, returns that
  reward, creates the track's statistics with \<open>play_count = 1\<close>, stores 0.55 for the
  keywords \<open>night\<close> and \<open>drive\<close> (no other keyword is stored) and 0.57 for the artist
  \<open>dj nova\<close>. Weights are real numbers here, so 0.55 and 0.57 are exact.
\<close>

theorem record_play_dj_nova_example:
  assumes "now_hour e < 24"
  shows "play_reward True 180 180 = (1, 1) \<and>
         keyword_scores default_prefs = [] \<and> artist_scores default_prefs = [] \<and>
         song_stats default_prefs = [] \<and>
         fst (record_play e default_prefs ''DJ Nova - Night Drive'' True 180 180 False) =
           Inr \<lparr> success = True, reward = 1 \<rparr> \<and>
         map_option play_count
           (map_of (song_stats (snd (record_play e default_prefs ''DJ Nova - Night Drive''
                                       True 180 180 False))) ''DJ Nova - Night Drive'') = Some 1 \<and>
         keyword_scores (snd (record_play e default_prefs ''DJ Nova - Night Drive''
                                True 180 180 False)) = [(''night'', 0.55), (''drive'', 0.55)] \<and>
         artist_scores (snd (record_play e default_prefs ''DJ Nova - Night Drive''
                               True 180 180 False)) = [(''dj nova'', 0.57)]"
proof -
  have tp: "map_of (time_preferences default_prefs) (str_nat (now_hour e)) = Some []"
    using assms by (rule default_hour_bucket)
  have r: "play_reward True 180 180 = (1, 1)"
    by (simp add: play_reward_def)
  have d: "keyword_scores default_prefs = []" "artist_scores default_prefs = []"
          "song_stats default_prefs = []" "genre_hints default_prefs = []"
          "learning_rate default_prefs = 0.1"
    by (simp_all add: default_prefs_def)
  show ?thesis
    using tp r d
    by (simp add: record_play_def feats_dj_nova lower_dj_nova Let_def truthy_def bump_weight_def)
qed

theorem record_play_dj_nova_example_witness:
  "now_hour \<lparr> now_hour = 13, now_iso = ''2024-05-01T13:00:00'' \<rparr> < 24 \<and>
   fst (record_play \<lparr> now_hour = 13, now_iso = ''2024-05-01T13:00:00'' \<rparr> default_prefs
          ''DJ Nova - Night Drive'' True 180 180 False) = Inr \<lparr> success = True, reward = 1 \<rparr>"
  using record_play_dj_nova_example [of "\<lparr> now_hour = 13, now_iso = ''2024-05-01T13:00:00'' \<rparr>"]
  by simp

subsection \<open>Recording a skip\<close>

text \<open>
  Claim C6. When the model has a bucket for the current hour (every model created by this
  program has all 24), recording a skip of any track, in any model, returns the reward
  \<open>-0.3\<close>, adds exactly 1 to \<open>total_skips\<close> and to the track's \<open>skip_count\<close>
  (counted from 0 for a track seen for the first time), and leaves the track's
  \<open>total_completion\<close> as it was (0 for a new track).
\<close>

theorem record_play_skip:
  assumes "map_of (time_preferences m) (str_nat (now_hour e)) \<noteq> None"
  shows "fst (record_play e m n c d t True) = Inr \<lparr> success = True, reward = - 0.3 \<rparr> \<and>
         total_skips (snd (record_play e m n c d t True)) = total_skips m + 1 \<and>
         map_option total_completion (map_of (song_stats (snd (record_play e m n c d t True))) n) =
           Some (case map_of (song_stats m) n of None \<Rightarrow> 0 | Some st \<Rightarrow> total_completion st) \<and>
         map_option skip_count (map_of (song_stats (snd (record_play e m n c d t True))) n) =
           Some ((case map_of (song_stats m) n of None \<Rightarrow> 0 | Some st \<Rightarrow> skip_count st) + 1)"
  using assms
  by (auto simp: record_play_def Let_def update_conv' split: option.splits)

theorem record_play_skip_witness:
  "map_of (time_preferences default_prefs) (str_nat (now_hour \<lparr> now_hour = 7, now_iso = ''t'' \<rparr>)) \<noteq> None \<and>
   fst (record_play \<lparr> now_hour = 7, now_iso = ''t'' \<rparr> default_prefs ''DJ Nova - Night Drive'' False 12 180 True) =
     Inr \<lparr> success = True, reward = - 0.3 \<rparr> \<and>
   total_skips (snd (record_play \<lparr> now_hour = 7, now_iso = ''t'' \<rparr> default_prefs ''DJ Nova - Night Drive'' False 12 180 True)) = 1"
proof -
  have h: "map_of (time_preferences default_prefs) (str_nat (now_hour \<lparr> now_hour = 7, now_iso = ''t'' \<rparr>)) \<noteq> None"
    by (simp add: default_hour_bucket)
  have z: "total_skips default_prefs = 0" by (simp add: default_prefs_def)
  show ?thesis
    using h z record_play_skip [OF h, of "''DJ Nova - Night Drive''" False 12 180] by simp
qed

subsection \<open>Scoring reads the model and leaves it alone\<close>

lemma default_time_prefs_empty:
  "(case map_of (time_preferences default_prefs) h of None \<Rightarrow> [] | Some b \<Rightarrow> b) = []"
proof -
  have "list_all (\<lambda>p. snd p = []) (time_preferences default_prefs)" by code_simp
  then show ?thesis by (auto simp: list_all_iff split: option.splits dest!: map_of_SomeD)
qed

lemma score_data_of_same_hour:
  assumes "now_hour e' = now_hour e"
  shows "score_data_of e' m n = score_data_of e m n"
  by (simp only: score_data_of_def assms)

lemma feats_nova_track:
  "extract_features ''DJ Nova - Night Drive.mp3'' =
     \<lparr> keywords_of = [''night'', ''drive''], artist = Some ''DJ Nova'',
       potential_genre = [], mood_hints = [], language_hints = [] \<rparr>"
  by code_simp

lemma nova_fan_score:
  "score_data_of e nova_fan ''DJ Nova - Night Drive.mp3'' =
     \<lparr> score = 0.5825, components = [(''keywords'', 0.525), (''artist'', 0.8)],
       score_features = extract_features ''DJ Nova - Night Drive.mp3'' \<rparr>"
proof -
  have d: "keyword_scores nova_fan = [(''night'', 0.55), (''drive'', 0.5)]"
          "artist_scores nova_fan = [(''the band'', 0.55), (''dj nova'', 0.8)]"
          "genre_hints nova_fan = [(''rock'', 0.4)]"
          "song_stats nova_fan = []"
          "time_preferences nova_fan = time_preferences default_prefs"
    by (simp_all add: nova_fan_def default_prefs_def)
  show ?thesis
    unfolding score_data_of_def feats_nova_track
    by (simp add: d Let_def truthy_def List.map_filter_simps default_time_prefs_empty
        lower_dj_nova)
qed

text \<open>
  Claim C7. \<open>calculate_song_score\<close> has no assignment to \<open>self.data\<close>, so the model
  after a call is the model before it. The result depends on the clock through the hour
  only: a second call for the same track, made on the model the first call left, at any
  moment of the same hour, returns the same score, components and features, and again
  leaves the model as it was.
\<close>

theorem calculate_song_score_read_only:
  assumes "now_hour e' = now_hour e"
  shows "snd (calculate_song_score e m n) = m \<and>
         fst (calculate_song_score e' (snd (calculate_song_score e m n)) n) =
           fst (calculate_song_score e m n) \<and>
         snd (calculate_song_score e' (snd (calculate_song_score e m n)) n) = m"
  using score_data_of_same_hour [OF assms, of m n]
  by (simp add: calculate_song_score_def)

theorem calculate_song_score_read_only_witness:
  "now_hour \<lparr> now_hour = 21, now_iso = ''2024-05-01T21:40:12'' \<rparr> =
     now_hour \<lparr> now_hour = 21, now_iso = ''2024-05-01T21:03:55'' \<rparr> \<and>
   snd (calculate_song_score \<lparr> now_hour = 21, now_iso = ''2024-05-01T21:03:55'' \<rparr> nova_fan
          ''DJ Nova - Night Drive.mp3'') = nova_fan \<and>
   fst (calculate_song_score \<lparr> now_hour = 21, now_iso = ''2024-05-01T21:40:12'' \<rparr>
          (snd (calculate_song_score \<lparr> now_hour = 21, now_iso = ''2024-05-01T21:03:55'' \<rparr>
                  nova_fan ''DJ Nova - Night Drive.mp3''))
          ''DJ Nova - Night Drive.mp3'') =
     \<lparr> score = 0.5825, components = [(''keywords'', 0.525), (''artist'', 0.8)],
       score_features = extract_features ''DJ Nova - Night Drive.mp3'' \<rparr>"
proof -
  have h: "now_hour \<lparr> now_hour = 21, now_iso = ''2024-05-01T21:40:12'' \<rparr> =
           now_hour \<lparr> now_hour = 21, now_iso = ''2024-05-01T21:03:55'' \<rparr>"
    by simp
  have v: "fst (calculate_song_score \<lparr> now_hour = 21, now_iso = ''2024-05-01T21:03:55'' \<rparr>
                  nova_fan ''DJ Nova - Night Drive.mp3'') =
           \<lparr> score = 0.5825, components = [(''keywords'', 0.525), (''artist'', 0.8)],
             score_features = extract_features ''DJ Nova - Night Drive.mp3'' \<rparr>"
    by (simp add: calculate_song_score_def nova_fan_score)
  have a: "snd (calculate_song_score \<lparr> now_hour = 21, now_iso = ''2024-05-01T21:03:55'' \<rparr>
                  nova_fan ''DJ Nova - Night Drive.mp3'') = nova_fan"
    and b: "fst (calculate_song_score \<lparr> now_hour = 21, now_iso = ''2024-05-01T21:40:12'' \<rparr>
          (snd (calculate_song_score \<lparr> now_hour = 21, now_iso = ''2024-05-01T21:03:55'' \<rparr>
                  nova_fan ''DJ Nova - Night Drive.mp3''))
          ''DJ Nova - Night Drive.mp3'') =
        fst (calculate_song_score \<lparr> now_hour = 21, now_iso = ''2024-05-01T21:03:55'' \<rparr>
                  nova_fan ''DJ Nova - Night Drive.mp3'')"
    using calculate_song_score_read_only [OF h, of nova_fan "''DJ Nova - Night Drive.mp3''"]
    by blast+
  show ?thesis
    by (intro conjI) (rule h, rule a, simp only: b v)
qed

subsection \<open>The genre factor\<close>

lemma feats_rock_remix:
  "extract_features ''Rock Remix'' =
     \<lparr> keywords_of = [''rock'', ''remix''], artist = None,
       potential_genre = [''electronic'', ''rock''], mood_hints = [], language_hints = [] \<rparr>"
  by code_simp

text \<open>
  Claim C3, evaluated. The genre factor divides the sum of the known genre weights by the
  number of all genre tags of the track, so a tag without a learned weight counts as 0.
  The track \<open>Rock Remix\<close> carries the tags \<open>electronic\<close> and \<open>rock\<close>. With
  only \<open>electronic\<close> learned, at 0.9, the recorded genre component is 0.45 (not 0.9)
  and the score is 0.49; on the fresh model, where no genre weight is known, the factor is
  still applied, with component 0, and the score is 0.4 rather than the base 0.5.
\<close>

theorem genre_factor_counts_unknown_tags:
  "potential_genre (extract_features ''Rock Remix'') = [''electronic'', ''rock''] \<and>
   components (fst (calculate_song_score e
                      (default_prefs \<lparr> genre_hints := [(''electronic'', 0.9)] \<rparr>) ''Rock Remix''))
     = [(''genre'', 0.45)] \<and>
   score (fst (calculate_song_score e
                 (default_prefs \<lparr> genre_hints := [(''electronic'', 0.9)] \<rparr>) ''Rock Remix''))
     = 0.49 \<and>
   components (fst (calculate_song_score e default_prefs ''Rock Remix'')) = [(''genre'', 0)] \<and>
   score (fst (calculate_song_score e default_prefs ''Rock Remix'')) = 0.4"
proof -
  have d: "keyword_scores default_prefs = []" "artist_scores default_prefs = []"
          "song_stats default_prefs = []" "genre_hints default_prefs = []"
    by (simp_all add: default_prefs_def)
  have a: "score_data_of e (default_prefs \<lparr> genre_hints := [(''electronic'', 0.9)] \<rparr>) ''Rock Remix''
           = \<lparr> score = 0.49, components = [(''genre'', 0.45)],
               score_features = extract_features ''Rock Remix'' \<rparr>"
    unfolding score_data_of_def feats_rock_remix
    by (simp add: d Let_def truthy_def List.map_filter_simps default_time_prefs_empty)
  have b: "score_data_of e default_prefs ''Rock Remix''
           = \<lparr> score = 0.4, components = [(''genre'', 0)],
               score_features = extract_features ''Rock Remix'' \<rparr>"
    unfolding score_data_of_def feats_rock_remix
    by (simp add: d Let_def truthy_def List.map_filter_simps default_time_prefs_empty)
  show ?thesis
    by (simp add: calculate_song_score_def a b feats_rock_remix)
qed

subsection \<open>Smart shuffle of a single track\<close>

lemma randint_2_3_ge: "2 \<le> fst (randint 2 3 rng)"
  by (simp add: randint_def randbelow_def split_def Let_def)

lemma interleave_done:
  "length preferred \<le> pref_idx \<Longrightarrow> length others \<le> other_idx \<Longrightarrow>
   interleave preferred others pref_idx other_idx result rng = (result, rng)"
  by (subst interleave.simps) simp

lemma interleave_one_one:
  "interleave [x] [y] 0 0 [] rng = ([x, y], snd (randint 2 3 rng))"
proof -
  have t: "take (fst (randint 2 3 rng)) [x] = [x]"
    using randint_2_3_ge [of rng] by (cases "fst (randint 2 3 rng)") auto
  have l: "min (Suc 0) (fst (randint 2 3 rng)) = Suc 0"
    using randint_2_3_ge [of rng] by simp
  have "interleave [x] [y] 0 0 [] rng = interleave [x] [y] 1 1 [x, y] (snd (randint 2 3 rng))"
    by (subst interleave.simps) (simp add: Let_def t l)
  then show ?thesis by (simp add: interleave_done)
qed

lemma shuffle_single: "shuffle [x] rng = ([x], rng)"
  by (simp add: shuffle_def)

text \<open>
  Claim C1, evaluated. For a single track the midpoint is 0, the preferred group is
  \<open>scored_songs[:max(1, 0)]\<close> and the others are \<open>scored_songs[0:]\<close>: both hold the
  track, and the order returned names it twice, whatever the model, the clock and the
  random draws.
\<close>

theorem smart_shuffle_singleton_duplicates:
  "map sname (fst (get_smart_shuffle_order e m [s] rng)) = [s, s]"
  by (simp add: get_smart_shuffle_order_def sort_desc_def Let_def shuffle_single interleave_one_one)

subsection \<open>Loading and merging with the defaults\<close>

lemma update_absent: "map_of es k = None \<Longrightarrow> AList.update k v es = es @ [(k, v)]"
  by (induction es) (auto split: if_splits)

lemma merge_defaults_object:
  "distinct (map fst ds) \<Longrightarrow>
   merge_defaults (JObj es) ds = Inr (JObj (es @ filter (\<lambda>kv. map_of es (fst kv) = None) ds))"
proof (induction ds arbitrary: es)
  case Nil
  then show ?case by simp
next
  case (Cons kv rest)
  have d: "distinct (map fst rest)" and nk: "fst kv \<notin> fst ` set rest"
    using Cons.prems by auto
  show ?case
  proof (cases "map_of es (fst kv) = None")
    case True
    have "map_of (es @ [kv]) (fst p) = None \<longleftrightarrow> map_of es (fst p) = None" if "p \<in> set rest" for p
    proof -
      have "fst p \<in> fst ` set rest" using that by (rule imageI)
      with nk have "fst p \<noteq> fst kv" by metis
      then show ?thesis by (cases kv) (auto simp: map_add_def split: option.splits)
    qed
    then have same: "filter (\<lambda>p. map_of (es @ [kv]) (fst p) = None) rest
                = filter (\<lambda>p. map_of es (fst p) = None) rest"
      by (intro filter_cong) auto
    have "merge_defaults (JObj es) (kv # rest) = merge_defaults (JObj (es @ [kv])) rest"
      using True by (simp add: merge_key_def update_absent)
    also have "\<dots> = Inr (JObj ((es @ [kv]) @ filter (\<lambda>p. map_of (es @ [kv]) (fst p) = None) rest))"
      using Cons.IH [OF d] .
    finally show ?thesis using True same by simp
  next
    case False
    then show ?thesis using Cons.IH [OF d, of es] by (auto simp: merge_key_def)
  qed
qed

lemma map_of_filter_missing:
  "map_of (es @ filter (\<lambda>kv. map_of es (fst kv) = None) ds) = map_of ds ++ map_of es"
proof
  fix k
  show "map_of (es @ filter (\<lambda>kv. map_of es (fst kv) = None) ds) k = (map_of ds ++ map_of es) k"
  proof (cases "map_of es k")
    case None
    have "map_of (filter (\<lambda>kv. map_of es (fst kv) = None) ds) k = map_of ds k"
      using None by (induction ds) auto
    then show ?thesis using None by (simp add: map_add_def)
  next
    case (Some v)
    have "map_of (filter (\<lambda>kv. map_of es (fst kv) = None) ds) k = None"
      using Some by (induction ds) auto
    then show ?thesis using Some by (simp add: map_add_def)
  qed
qed

lemma default_fields_distinct: "distinct (map fst default_fields)"
  by (simp add: default_fields_def)

text \<open>
  Claim C9. Loading returns the default document when the file does not exist, cannot be
  read or cannot be parsed, and also when the parsed value is null, a boolean or a number
  (the merge raises, and the exception is caught). When the parsed value is an object, the
  result is that object followed by the default entries of exactly the keys it lacks, so
  each missing top-level field has its default value and each present field keeps its own.
  The default document has the nine fields listed, with empty maps, zero counters, learning
  rate 0.1 and no timestamp.
\<close>

theorem load_preferences_defaults:
  "load_preferences NoFile = JObj default_fields \<and>
   load_preferences ReadFailure = JObj default_fields \<and>
   load_preferences ParseFailure = JObj default_fields \<and>
   load_preferences (Parsed JNull) = JObj default_fields \<and>
   load_preferences (Parsed (JBool b)) = JObj default_fields \<and>
   load_preferences (Parsed (JInt i)) = JObj default_fields \<and>
   load_preferences (Parsed (JFloat x)) = JObj default_fields \<and>
   load_preferences (Parsed (JObj es)) =
     JObj (es @ filter (\<lambda>kv. map_of es (fst kv) = None) default_fields) \<and>
   map_of (es @ filter (\<lambda>kv. map_of es (fst kv) = None) default_fields) =
     map_of default_fields ++ map_of es \<and>
   map fst default_fields =
     [''song_stats'', ''keyword_scores'', ''artist_scores'', ''time_preferences'',
      ''genre_hints'', ''total_plays'', ''total_skips'', ''learning_rate'', ''last_updated''] \<and>
   map_of default_fields ''song_stats'' = Some (JObj []) \<and>
   map_of default_fields ''keyword_scores'' = Some (JObj []) \<and>
   map_of default_fields ''artist_scores'' = Some (JObj []) \<and>
   map_of default_fields ''genre_hints'' = Some (JObj []) \<and>
   map_of default_fields ''total_plays'' = Some (JInt 0) \<and>
   map_of default_fields ''total_skips'' = Some (JInt 0) \<and>
   map_of default_fields ''learning_rate'' = Some (JFloat 0.1) \<and>
   map_of default_fields ''last_updated'' = Some JNull"
proof -
  have obj: "load_preferences (Parsed (JObj es)) =
     JObj (es @ filter (\<lambda>kv. map_of es (fst kv) = None) default_fields)"
    by (simp add: load_preferences_def merge_defaults_object [OF default_fields_distinct])
  have other: "load_preferences NoFile = JObj default_fields"
    "load_preferences ReadFailure = JObj default_fields"
    "load_preferences ParseFailure = JObj default_fields"
    "load_preferences (Parsed JNull) = JObj default_fields"
    "load_preferences (Parsed (JBool b)) = JObj default_fields"
    "load_preferences (Parsed (JInt i)) = JObj default_fields"
    "load_preferences (Parsed (JFloat x)) = JObj default_fields"
    by (simp_all add: load_preferences_def default_fields_def merge_key_def)
  have shape: "map fst default_fields =
     [''song_stats'', ''keyword_scores'', ''artist_scores'', ''time_preferences'',
      ''genre_hints'', ''total_plays'', ''total_skips'', ''learning_rate'', ''last_updated'']"
   "map_of default_fields ''song_stats'' = Some (JObj [])"
   "map_of default_fields ''keyword_scores'' = Some (JObj [])"
   "map_of default_fields ''artist_scores'' = Some (JObj [])"
   "map_of default_fields ''genre_hints'' = Some (JObj [])"
   "map_of default_fields ''total_plays'' = Some (JInt 0)"
   "map_of default_fields ''total_skips'' = Some (JInt 0)"
   "map_of default_fields ''learning_rate'' = Some (JFloat 0.1)"
   "map_of default_fields ''last_updated'' = Some JNull"
    by (simp_all add: default_fields_def)
  show ?thesis using obj other map_of_filter_missing [of es default_fields] shape by simp
qed

subsection \<open>Weights stay in the unit interval\<close>

lemma set_update_subset: "set (AList.update k v d) \<subseteq> insert (k, v) (set d)"
  by (induction d) auto

lemma in_unit_bump_weight: "in_unit d \<Longrightarrow> in_unit (bump_weight lr delta d k)"
proof -
  assume a: "in_unit d"
  let ?v = "max 0 (min 1 ((case map_of d k of None \<Rightarrow> 0.5 | Some v \<Rightarrow> v) + lr * delta))"
  have "0 \<le> ?v \<and> ?v \<le> 1" by simp
  then show ?thesis
    using a set_update_subset [of k ?v d]
    unfolding in_unit_def bump_weight_def Let_def list_all_iff by fastforce
qed

lemma in_unit_foldl_bump:
  "in_unit d \<Longrightarrow> in_unit (foldl (bump_weight lr delta) d ks)"
  by (induction ks arbitrary: d) (simp_all add: in_unit_bump_weight)

lemma record_play_keyword_scores:
  "\<exists>r. keyword_scores (snd (record_play e m n c d t s)) =
         foldl (bump_weight (learning_rate m) (r - 0.5)) (keyword_scores m)
           (keywords_of (extract_features n)) \<and>
       artist_scores (snd (record_play e m n c d t s)) =
         (if truthy (artist (extract_features n))
          then bump_weight (learning_rate m) (r - 0.3) (artist_scores m)
                 (lower (the (artist (extract_features n))))
          else artist_scores m) \<and>
       genre_hints (snd (record_play e m n c d t s)) =
         foldl (bump_weight (learning_rate m) (r - 0.5)) (genre_hints m)
           (potential_genre (extract_features n)) \<and>
       (s \<longrightarrow> r = - 0.3)"
  by (cases s) (auto simp: record_play_def Let_def split_def split: option.splits)

lemma record_play_weights_in_unit:
  assumes "weights_in_unit m"
  shows "weights_in_unit (snd (record_play e m n c d t s))"
proof -
  obtain r where
    "keyword_scores (snd (record_play e m n c d t s)) =
       foldl (bump_weight (learning_rate m) (r - 0.5)) (keyword_scores m)
         (keywords_of (extract_features n))"
    "artist_scores (snd (record_play e m n c d t s)) =
       (if truthy (artist (extract_features n))
        then bump_weight (learning_rate m) (r - 0.3) (artist_scores m)
               (lower (the (artist (extract_features n))))
        else artist_scores m)"
    "genre_hints (snd (record_play e m n c d t s)) =
       foldl (bump_weight (learning_rate m) (r - 0.5)) (genre_hints m)
         (potential_genre (extract_features n))"
    using record_play_keyword_scores [of e m n c d t s] by blast
  then show ?thesis
    using assms by (simp add: weights_in_unit_def in_unit_foldl_bump in_unit_bump_weight)
qed

text \<open>
  Claim C2. If every keyword, artist and genre weight of a model lies in \<open>[0, 1]\<close>,
  then so does every such weight after any sequence of \<open>record_play\<close> calls, whatever
  their arguments, the clock and the learning rate; the fresh model has no weight at all.
  Since every prefix of a sequence is a sequence, this holds after every single update.
\<close>

theorem weights_stay_in_unit:
  assumes "weights_in_unit m"
  shows "weights_in_unit (record_plays m evs)"
  using assms
  by (induction evs arbitrary: m) (simp_all add: record_play_weights_in_unit)

lemma near_top_play:
  "keyword_scores
     (record_plays (default_prefs \<lparr> keyword_scores := [(''night'', 0.98)] \<rparr>)
        [\<lparr> ev_env = \<lparr> now_hour = 21, now_iso = ''2024-05-01T21:00:00'' \<rparr>,
           ev_song = ''DJ Nova - Night Drive'', ev_completed = True,
           ev_duration_played = 180, ev_total_duration = 180, ev_skipped = False \<rparr>]) =
     [(''night'', 1), (''drive'', 0.55)]"
  by code_simp

theorem weights_stay_in_unit_witness:
  "weights_in_unit (default_prefs \<lparr> keyword_scores := [(''night'', 0.98)] \<rparr>) \<and>
   weights_in_unit
     (record_plays (default_prefs \<lparr> keyword_scores := [(''night'', 0.98)] \<rparr>)
        [\<lparr> ev_env = \<lparr> now_hour = 21, now_iso = ''2024-05-01T21:00:00'' \<rparr>,
           ev_song = ''DJ Nova - Night Drive'', ev_completed = True,
           ev_duration_played = 180, ev_total_duration = 180, ev_skipped = False \<rparr>]) \<and>
   keyword_scores
     (record_plays (default_prefs \<lparr> keyword_scores := [(''night'', 0.98)] \<rparr>)
        [\<lparr> ev_env = \<lparr> now_hour = 21, now_iso = ''2024-05-01T21:00:00'' \<rparr>,
           ev_song = ''DJ Nova - Night Drive'', ev_completed = True,
           ev_duration_played = 180, ev_total_duration = 180, ev_skipped = False \<rparr>]) =
     [(''night'', 1), (''drive'', 0.55)]"
proof -
  have h: "weights_in_unit (default_prefs \<lparr> keyword_scores := [(''night'', 0.98)] \<rparr>)"
    by (simp add: weights_in_unit_def in_unit_def default_prefs_def)
  show ?thesis
    using h near_top_play
      weights_stay_in_unit [OF h, of
        "[\<lparr> ev_env = \<lparr> now_hour = 21, now_iso = ''2024-05-01T21:00:00'' \<rparr>,
           ev_song = ''DJ Nova - Night Drive'', ev_completed = True,
           ev_duration_played = 180, ev_total_duration = 180, ev_skipped = False \<rparr>]"]
    by simp
qed

subsection \<open>A skip raises no weight\<close>

lemma map_of_bump_weight:
  "map_of (bump_weight lr delta d k) =
     (map_of d)(k \<mapsto> max 0 (min 1 ((case map_of d k of None \<Rightarrow> 0.5 | Some v \<Rightarrow> v) + lr * delta)))"
  by (simp add: bump_weight_def Let_def update_conv')

lemma in_unit_map_of: "in_unit d \<Longrightarrow> map_of d k = Some w \<Longrightarrow> 0 \<le> w \<and> w \<le> 1"
  by (auto simp: in_unit_def list_all_iff dest!: map_of_SomeD)

lemma clamp_below_seed: "x < 0 \<Longrightarrow> max 0 (min 1 (0.5 + x)) < (0.5::real)"
  by (simp add: max_def min_def)

lemma clamp_not_above: "x < 0 \<Longrightarrow> 0 \<le> w \<Longrightarrow> max 0 (min 1 (w + x)) \<le> (w::real)"
  by (simp add: max_def min_def)

lemma not_raised_refl: "not_raised d d"
  by (auto simp: not_raised_def split: option.splits)

lemma not_raised_bump:
  assumes u: "in_unit d1" and r: "not_raised d0 d1" and neg: "lr * delta < 0"
  shows "not_raised d0 (bump_weight lr delta d1 k)"
  unfolding not_raised_def
proof
  fix j
  have rj: "case map_of d0 j of
             Some w \<Rightarrow> (case map_of d1 j of Some w' \<Rightarrow> w' \<le> w | None \<Rightarrow> False)
           | None \<Rightarrow> (case map_of d1 j of Some w' \<Rightarrow> w' < 0.5 | None \<Rightarrow> True)"
    using r unfolding not_raised_def by blast
  show "case map_of d0 j of
          Some w \<Rightarrow> (case map_of (bump_weight lr delta d1 k) j of Some w' \<Rightarrow> w' \<le> w | None \<Rightarrow> False)
        | None \<Rightarrow> (case map_of (bump_weight lr delta d1 k) j of Some w' \<Rightarrow> w' < 0.5 | None \<Rightarrow> True)"
  proof (cases "j = k")
    case False
    then have "map_of (bump_weight lr delta d1 k) j = map_of d1 j"
      by (simp add: map_of_bump_weight)
    then show ?thesis using rj by (simp split: option.splits)
  next
    case True
    let ?seed = "case map_of d1 k of None \<Rightarrow> 0.5 | Some v \<Rightarrow> v"
    let ?v = "max 0 (min 1 (?seed + lr * delta))"
    have mv: "map_of (bump_weight lr delta d1 k) j = Some ?v"
      using True by (simp add: map_of_bump_weight)
    show ?thesis
    proof (cases "map_of d1 k")
      case None
      then have "?v < 0.5" using clamp_below_seed [OF neg] by simp
      moreover have "map_of d0 k = None"
        using rj True None by (simp split: option.splits)
      ultimately show ?thesis using True mv by simp
    next
      case (Some w1)
      then have w0: "0 \<le> w1" using in_unit_map_of [OF u] by blast
      have le: "?v \<le> w1" using Some clamp_not_above [OF neg w0] by simp
      show ?thesis
      proof (cases "map_of d0 k")
        case None
        then have "w1 < 0.5" using rj True Some by simp
        with le have "?v < 0.5" by (rule le_less_trans)
        then show ?thesis using None True mv by simp
      next
        case (Some w)
        then have "w1 \<le> w" using rj True \<open>map_of d1 k = Some w1\<close> by simp
        with le have "?v \<le> w" by (rule order_trans)
        then show ?thesis using Some True mv by simp
      qed
    qed
  qed
qed

lemma not_raised_foldl:
  "in_unit d1 \<Longrightarrow> not_raised d0 d1 \<Longrightarrow> lr * delta < 0 \<Longrightarrow>
   not_raised d0 (foldl (bump_weight lr delta) d1 ks)"
  by (induction ks arbitrary: d1) (simp_all add: not_raised_bump in_unit_bump_weight)

text \<open>
  Claim C10. In a model whose weights lie in \<open>[0, 1]\<close> and whose learning rate is
  positive (0.1 in every model this program creates), recording a skip raises no keyword,
  artist or genre weight: each weight present before is present after and not larger, and
  each entry the call creates ends strictly below the seed 0.5.
\<close>

theorem skip_never_raises_weights:
  assumes "weights_in_unit m" and "0 < learning_rate m"
  shows "not_raised (keyword_scores m) (keyword_scores (snd (record_play e m n c d t True))) \<and>
         not_raised (artist_scores m) (artist_scores (snd (record_play e m n c d t True))) \<and>
         not_raised (genre_hints m) (genre_hints (snd (record_play e m n c d t True)))"
proof -
  obtain r where
    k: "keyword_scores (snd (record_play e m n c d t True)) =
       foldl (bump_weight (learning_rate m) (r - 0.5)) (keyword_scores m)
         (keywords_of (extract_features n))" and
    a: "artist_scores (snd (record_play e m n c d t True)) =
       (if truthy (artist (extract_features n))
        then bump_weight (learning_rate m) (r - 0.3) (artist_scores m)
               (lower (the (artist (extract_features n))))
        else artist_scores m)" and
    g: "genre_hints (snd (record_play e m n c d t True)) =
       foldl (bump_weight (learning_rate m) (r - 0.5)) (genre_hints m)
         (potential_genre (extract_features n))" and
    r: "r = - 0.3"
    using record_play_keyword_scores [of e m n c d t True] by auto
  have n5: "learning_rate m * (r - 0.5) < 0" and n3: "learning_rate m * (r - 0.3) < 0"
    using assms(2) r by (simp_all add: mult_pos_neg)
  have u: "in_unit (keyword_scores m)" "in_unit (artist_scores m)" "in_unit (genre_hints m)"
    using assms(1) by (simp_all add: weights_in_unit_def)
  show ?thesis
    unfolding k a g
    using u n5 n3 by (simp add: not_raised_foldl not_raised_bump not_raised_refl)
qed

lemma skip_on_fresh:
  "keyword_scores (snd (record_play \<lparr> now_hour = 7, now_iso = ''t'' \<rparr> default_prefs
                          ''DJ Nova - Night Drive'' False 12 180 True)) =
     [(''night'', 0.42), (''drive'', 0.42)] \<and>
   artist_scores (snd (record_play \<lparr> now_hour = 7, now_iso = ''t'' \<rparr> default_prefs
                         ''DJ Nova - Night Drive'' False 12 180 True)) = [(''dj nova'', 0.44)]"
  by code_simp

theorem skip_never_raises_weights_witness:
  "weights_in_unit default_prefs \<and> 0 < learning_rate default_prefs \<and>
   not_raised (keyword_scores default_prefs)
     (keyword_scores (snd (record_play \<lparr> now_hour = 7, now_iso = ''t'' \<rparr> default_prefs
                             ''DJ Nova - Night Drive'' False 12 180 True))) \<and>
   keyword_scores (snd (record_play \<lparr> now_hour = 7, now_iso = ''t'' \<rparr> default_prefs
                          ''DJ Nova - Night Drive'' False 12 180 True)) =
     [(''night'', 0.42), (''drive'', 0.42)] \<and>
   artist_scores (snd (record_play \<lparr> now_hour = 7, now_iso = ''t'' \<rparr> default_prefs
                         ''DJ Nova - Night Drive'' False 12 180 True)) = [(''dj nova'', 0.44)]"
proof -
  have h: "weights_in_unit default_prefs"
    by (simp add: weights_in_unit_def in_unit_def default_prefs_def)
  have l: "0 < learning_rate default_prefs"
    by (simp add: default_prefs_def)
  show ?thesis
    using h l skip_on_fresh
      skip_never_raises_weights [OF h l, of "\<lparr> now_hour = 7, now_iso = ''t'' \<rparr>"
        "''DJ Nova - Night Drive''" False 12 180]
    by simp
qed

subsection \<open>Recommendations with a single strong artist\<close>

lemma sort_desc_set: "set (sort_desc key xs) = set xs"
  by (simp add: sort_desc_def)

lemma sort_desc_head_max:
  assumes "sort_desc key xs = h # t" and "p \<in> set t"
  shows "key p \<le> key h"
proof -
  have "sorted (map (\<lambda>x. - key x) (h # t))"
    using assms(1) sorted_sort_key [of "\<lambda>x. - key x" xs] by (simp add: sort_desc_def)
  then show ?thesis using assms(2) by auto
qed

lemma sort_desc_unique_top:
  assumes d: "distinct (map fst xs)"
    and a: "map_of xs a = Some v"
    and others: "\<forall>p\<in>set xs. fst p \<noteq> a \<longrightarrow> snd p \<le> c"
    and gt: "c < v"
  shows "\<exists>rest. sort_desc snd xs = (a, v) # rest \<and> (\<forall>p\<in>set rest. snd p \<le> c)"
proof -
  have mem: "(a, v) \<in> set xs" using a by (rule map_of_SomeD)
  then have "(a, v) \<in> set (sort_desc snd xs)" by (simp add: sort_desc_set)
  then obtain h t where ht: "sort_desc snd xs = h # t"
    by (cases "sort_desc snd xs") auto
  have hin: "h \<in> set xs" using ht sort_desc_set [of snd xs] by (metis list.set_intros(1))
  have tin: "set t \<subseteq> set xs" using ht sort_desc_set [of snd xs] by (metis set_subset_Cons)
  have uniq: "p = (a, v)" if "p \<in> set xs" "fst p = a" for p
  proof -
    have "map_of xs (fst p) = Some (snd p)"
      using d that(1) by (metis map_of_eq_Some_iff prod.collapse)
    then show ?thesis using a that(2) by (metis option.inject prod.collapse)
  qed
  have "v \<le> snd h"
  proof (cases "h = (a, v)")
    case True then show ?thesis by simp
  next
    case False
    then have "(a, v) \<in> set t" using \<open>(a, v) \<in> set (sort_desc snd xs)\<close> ht by auto
    then show ?thesis using sort_desc_head_max [OF ht] by fastforce
  qed
  then have "\<not> snd h \<le> c" using gt by simp
  then have "fst h = a" using others hin by blast
  then have h: "h = (a, v)" using uniq hin by blast
  have dist: "distinct (sort_desc snd xs)"
    using d by (simp add: sort_desc_def distinct_map)
  have "snd p \<le> c" if "p \<in> set t" for p
  proof -
    have "p \<noteq> h" using dist ht that by auto
    moreover have "p \<in> set xs" using that tin by blast
    ultimately have "fst p \<noteq> a" using uniq h by blast
    then show ?thesis using others \<open>p \<in> set xs\<close> by blast
  qed
  then show ?thesis using ht h by blast
qed

lemma filter_none_above:
  assumes "\<forall>p\<in>set xs. snd p \<le> c" and "c \<le> b"
  shows "filter (\<lambda>p. snd p > b) (take n (sort_desc snd xs)) = []"
proof -
  have "set (take n (sort_desc snd xs)) \<subseteq> set xs"
    using set_take_subset [of n "sort_desc snd xs"] by (simp add: sort_desc_set)
  then show ?thesis using assms by (fastforce simp: filter_empty_conv)
qed

lemma title_dj_nova: "title ''dj nova'' = codepoints ''Dj Nova''"
  by code_simp

text \<open>
  Claim C8. In a model (a dictionary: keys are distinct) where the artist \<open>dj nova\<close>
  has weight 0.8 and no other artist, genre or keyword weight exceeds 0.55,
  \<open>get_download_recommendations(5)\<close> returns the artist suggestion with query
  \<open>dj nova popular songs\<close> and confidence 0.8 first, followed only by the time-of-day
  suggestion (confidence 0.6) when the hour has one. So exactly one suggestion is of kind
  artist, no entry has a higher confidence, the list is sorted by descending confidence
  and has at most 5 entries.
\<close>

theorem suggest_single_strong_artist:
  fixes m :: prefs
  assumes "distinct (map fst (artist_scores m))"
    and "map_of (artist_scores m) ''dj nova'' = Some 0.8"
    and "\<forall>p\<in>set (artist_scores m). fst p \<noteq> ''dj nova'' \<longrightarrow> snd p \<le> 0.55"
    and "\<forall>p\<in>set (genre_hints m). snd p \<le> 0.55"
    and "\<forall>p\<in>set (keyword_scores m). snd p \<le> 0.55"
  shows "get_download_recommendations e m 5 =
           \<lparr> query = ''dj nova popular songs'', reason = codepoints ''You seem to enjoy Dj Nova'',
             confidence = 0.8, kind = ''artist'' \<rparr> # time_recs (now_hour e) \<and>
         filter (\<lambda>r. kind r = ''artist'') (get_download_recommendations e m 5) =
           [\<lparr> query = ''dj nova popular songs'', reason = codepoints ''You seem to enjoy Dj Nova'',
              confidence = 0.8, kind = ''artist'' \<rparr>] \<and>
         list_all (\<lambda>r. confidence r \<le> 0.8) (get_download_recommendations e m 5) \<and>
         sorted (map (\<lambda>r. - confidence r) (get_download_recommendations e m 5)) \<and>
         length (get_download_recommendations e m 5) \<le> 5"
proof -
  let ?rec = "\<lparr> query = ''dj nova popular songs'', reason = codepoints ''You seem to enjoy Dj Nova'',
                confidence = 0.8, kind = ''artist'' \<rparr>"
  obtain rest where s: "sort_desc snd (artist_scores m) = (''dj nova'', 0.8) # rest"
    and r: "\<forall>p\<in>set rest. snd p \<le> 0.55"
    using sort_desc_unique_top [OF assms(1) assms(2) assms(3)] by auto
  have "set (take 2 (take 4 rest)) \<subseteq> set rest"
    by (meson order_trans set_take_subset)
  then have fa: "filter (\<lambda>p. snd p > 0.55) (take 2 (take 4 rest)) = []"
    using r by (fastforce simp: filter_empty_conv)
  have arts: "filter (\<lambda>p. snd p > 0.55) (take 3 (take 5 (sort_desc snd (artist_scores m))))
              = [(''dj nova'', 0.8)]"
    using fa by (simp add: s take_Cons')
  have gens: "filter (\<lambda>p. snd p > 0.55) (take 3 (sort_desc snd (genre_hints m))) = []"
    using assms(4) by (intro filter_none_above [where c = "0.55"]) auto
  have keys: "filter (\<lambda>p. snd p > 0.6) (take 10 (sort_desc snd (keyword_scores m))) = []"
    using assms(5) by (intro filter_none_above [where c = "0.55"]) auto
  have eq: "get_download_recommendations e m 5 = ?rec # time_recs (now_hour e)"
    unfolding get_download_recommendations_def Let_def arts gens keys
    by (simp add: artist_rec_def title_dj_nova sort_desc_def time_recs_def py_take_def
        codepoints_def)
  show ?thesis
    unfolding eq by (simp add: time_recs_def)
qed

theorem suggest_single_strong_artist_witness:
  "distinct (map fst (artist_scores nova_fan)) \<and>
   map_of (artist_scores nova_fan) ''dj nova'' = Some 0.8 \<and>
   get_download_recommendations \<lparr> now_hour = 23, now_iso = ''t'' \<rparr> nova_fan 5 =
     [\<lparr> query = ''dj nova popular songs'', reason = codepoints ''You seem to enjoy Dj Nova'',
        confidence = 0.8, kind = ''artist'' \<rparr>,
      \<lparr> query = ''calm relaxing night music'',
        reason = codepoints ''Perfect for late night listening'',
        confidence = 0.6, kind = ''time'' \<rparr>]"
proof -
  have h1: "distinct (map fst (artist_scores nova_fan))"
    by (simp add: nova_fan_def)
  have h2: "map_of (artist_scores nova_fan) ''dj nova'' = Some 0.8"
    by (simp add: nova_fan_def)
  have h3: "\<forall>p\<in>set (artist_scores nova_fan). fst p \<noteq> ''dj nova'' \<longrightarrow> snd p \<le> 0.55"
    by (simp add: nova_fan_def)
  have h4: "\<forall>p\<in>set (genre_hints nova_fan). snd p \<le> 0.55"
    by (simp add: nova_fan_def)
  have h5: "\<forall>p\<in>set (keyword_scores nova_fan). snd p \<le> 0.55"
    by (simp add: nova_fan_def)
  show ?thesis
    using h1 h2 suggest_single_strong_artist [OF h1 h2 h3 h4 h5, of "\<lparr> now_hour = 23, now_iso = ''t'' \<rparr>"]
    by (simp add: time_recs_def)
qed

subsection \<open>Names of the form title by artist\<close>

lemma startswith_append: "startswith p s \<Longrightarrow> s = p @ drop (length p) s"
  by (induction p s rule: startswith.induct) auto

lemma split_once_append: "split_once sep s = Some (l, r) \<Longrightarrow> s = l @ sep @ r"
proof (induction s arbitrary: l)
  case Nil
  then show ?case by (simp split: if_splits)
next
  case (Cons c cs)
  show ?case
  proof (cases "startswith sep (c # cs)")
    case True
    then show ?thesis using Cons.prems startswith_append [OF True] by simp
  next
    case False
    then obtain l' where "split_once sep cs = Some (l', r)" and "l = c # l'"
      using Cons.prems by (auto split: option.splits)
    then show ?thesis using Cons.IH by simp
  qed
qed

lemma re_split_not_empty: "re_split P s \<noteq> []"
  by (subst re_split.simps) (simp add: Let_def)

lemma re_split_Nil: "re_split P [] = [[]]"
  by (subst re_split.simps) simp

lemma re_split_sep_Cons: "P x \<Longrightarrow> re_split P (x # s) = [] # re_split P (dropWhile P s)"
  by (subst re_split.simps) simp

lemma re_split_char_Cons:
  "\<not> P x \<Longrightarrow> re_split P (x # s) = (x # hd (re_split P s)) # tl (re_split P s)"
  by (subst re_split.simps, subst (2 3) re_split.simps) (simp add: Let_def)

lemma filter_re_split_dropWhile:
  assumes "\<not> Q []"
  shows "filter Q (re_split P (dropWhile P s)) = filter Q (re_split P s)"
proof (cases s)
  case Nil
  then show ?thesis by simp
next
  case (Cons x xs)
  then show ?thesis using assms by (cases "P x") (simp_all add: re_split_sep_Cons)
qed

lemma re_split_append_sep:
  assumes "P c" and "\<not> Q []"
  shows "hd (re_split P (l @ c # s)) = hd (re_split P l) \<and>
         filter Q (tl (re_split P (l @ c # s))) =
           filter Q (tl (re_split P l)) @ filter Q (re_split P s)"
proof (induction l)
  case Nil
  show ?case
    using assms by (simp add: re_split_Nil re_split_sep_Cons filter_re_split_dropWhile)
next
  case (Cons x l)
  show ?case
  proof (cases "P x")
    case False
    then show ?thesis using Cons.IH by (simp add: re_split_char_Cons)
  next
    case True
    have whole: "filter Q (re_split P (l @ c # s)) = filter Q (re_split P l) @ filter Q (re_split P s)"
    proof -
      have "re_split P (l @ c # s) = hd (re_split P (l @ c # s)) # tl (re_split P (l @ c # s))"
        using re_split_not_empty [of P "l @ c # s"] by simp
      then have "filter Q (re_split P (l @ c # s)) =
                 filter Q [hd (re_split P l)] @ filter Q (tl (re_split P l)) @ filter Q (re_split P s)"
        using Cons.IH by (metis append_Cons append_Nil filter_append)
      also have "\<dots> = filter Q (hd (re_split P l) # tl (re_split P l)) @ filter Q (re_split P s)"
        by simp
      finally show ?thesis using re_split_not_empty [of P l] by simp
    qed
    show ?thesis
      using True assms whole
      by (simp add: re_split_sep_Cons filter_re_split_dropWhile)
  qed
qed

lemma filter_re_split_append_sep:
  assumes "P c" and "\<not> Q []"
  shows "filter Q (re_split P (l @ c # s)) = filter Q (re_split P l) @ filter Q (re_split P s)"
proof -
  have a: "re_split P (l @ c # s) = hd (re_split P (l @ c # s)) # tl (re_split P (l @ c # s))"
    using re_split_not_empty [of P "l @ c # s"] by simp
  have b: "re_split P l = hd (re_split P l) # tl (re_split P l)"
    using re_split_not_empty [of P l] by simp
  have "filter Q (re_split P (l @ c # s)) =
        filter Q [hd (re_split P l)] @ filter Q (tl (re_split P l)) @ filter Q (re_split P s)"
    using re_split_append_sep [where P = P and c = c and Q = Q and l = l and s = s] assms a
    by (metis append_Cons append_Nil filter_append)
  also have "\<dots> = filter Q (hd (re_split P l) # tl (re_split P l)) @ filter Q (re_split P s)"
    by simp
  finally show ?thesis using b by simp
qed

lemma is_sep_space: "is_sep (CHR '' '')"
  by code_simp

lemma strip_Nil: "strip [] = []"
  by (simp add: strip_def)

lemma keyword_tokens_append_space:
  "keyword_tokens (l @ CHR '' '' # s) = keyword_tokens l @ keyword_tokens s"
proof -
  have "\<not> 3 \<le> length (strip [])" by (simp add: strip_Nil)
  then have "filter (\<lambda>w. 3 \<le> length (strip w)) (re_split is_sep (l @ CHR '' '' # s)) =
        filter (\<lambda>w. 3 \<le> length (strip w)) (re_split is_sep l) @
        filter (\<lambda>w. 3 \<le> length (strip w)) (re_split is_sep s)"
    using is_sep_space
    by (rule filter_re_split_append_sep
        [where P = is_sep and c = "CHR '' ''" and Q = "\<lambda>w. 3 \<le> length (strip w)", rotated])
  then show ?thesis by (simp add: keyword_tokens_def)
qed

lemma keyword_tokens_by: "keyword_tokens ''by'' = []"
  by code_simp

lemma keyword_tokens_around_by:
  "keyword_tokens (l @ '' by '' @ r) = keyword_tokens l @ keyword_tokens r"
proof -
  have "keyword_tokens (l @ '' by '' @ r) = keyword_tokens l @ keyword_tokens (''by'' @ CHR '' '' # r)"
    using keyword_tokens_append_space [of l "''by '' @ r"] by simp
  also have "keyword_tokens (''by'' @ CHR '' '' # r) = keyword_tokens ''by'' @ keyword_tokens r"
    by (rule keyword_tokens_append_space)
  finally show ?thesis by (simp add: keyword_tokens_by)
qed

text \<open>
  Claim C4, as amended. For a track name (extension removed) that does not contain
  \<open>" - "\<close> and whose lower-cased form splits at its first \<open>" by "\<close> into a left and
  a right segment, the candidate artist is the trimmed right segment, and the keywords
  are the tokens of the whole lower-cased name: those of the left segment followed by
  those of the right segment (the word \<open>by\<close> itself is too short to be a keyword).
\<close>

theorem by_branch_features:
  assumes "split_once '' - '' (splitext_root n) = None"
    and "split_once '' by '' (lower (splitext_root n)) = Some (l, r)"
  shows "artist (extract_features n) = Some (strip r) \<and>
         keywords_of (extract_features n) = keyword_tokens (lower (splitext_root n)) \<and>
         keywords_of (extract_features n) = keyword_tokens l @ keyword_tokens r"
proof -
  have "lower (splitext_root n) = l @ '' by '' @ r"
    using assms(2) by (rule split_once_append)
  then have "keyword_tokens (lower (splitext_root n)) = keyword_tokens l @ keyword_tokens r"
    using keyword_tokens_around_by [of l r] by simp
  then show ?thesis
    using assms by (simp add: extract_features_def Let_def)
qed

text \<open>
  The claim as first stated, that no keyword comes from the left segment, fails on
  \<open>Night Drive by DJ Nova\<close>: the keywords are \<open>night\<close>, \<open>drive\<close> and \<open>nova\<close>,
  and the first two are the tokens of the left segment \<open>night drive\<close>.
\<close>

theorem by_branch_keywords_from_left_counterexample:
  "split_once '' - '' (splitext_root ''Night Drive by DJ Nova'') = None \<and>
   split_once '' by '' (lower (splitext_root ''Night Drive by DJ Nova'')) =
     Some (''night drive'', ''dj nova'') \<and>
   artist (extract_features ''Night Drive by DJ Nova'') = Some ''dj nova'' \<and>
   keywords_of (extract_features ''Night Drive by DJ Nova'') = [''night'', ''drive'', ''nova''] \<and>
   keyword_tokens ''night drive'' = [''night'', ''drive''] \<and>
   keyword_tokens ''dj nova'' = [''nova'']"
  by code_simp

theorem by_branch_features_witness:
  "split_once '' - '' (splitext_root ''Night Drive by DJ Nova.mp3'') = None \<and>
   split_once '' by '' (lower (splitext_root ''Night Drive by DJ Nova.mp3'')) =
     Some (''night drive'', ''dj nova'') \<and>
   artist (extract_features ''Night Drive by DJ Nova.mp3'') = Some ''dj nova'' \<and>
   keywords_of (extract_features ''Night Drive by DJ Nova.mp3'') = [''night'', ''drive'', ''nova'']"
proof -
  have h1: "split_once '' - '' (splitext_root ''Night Drive by DJ Nova.mp3'') = None"
    by code_simp
  have h2: "split_once '' by '' (lower (splitext_root ''Night Drive by DJ Nova.mp3'')) =
     Some (''night drive'', ''dj nova'')"
    by code_simp
  have s: "strip ''dj nova'' = ''dj nova''" by code_simp
  have k: "keyword_tokens ''night drive'' = [''night'', ''drive'']"
    "keyword_tokens ''dj nova'' = [''nova'']" by code_simp+
  have a: "artist (extract_features ''Night Drive by DJ Nova.mp3'') = Some (strip ''dj nova'')"
    and b: "keywords_of (extract_features ''Night Drive by DJ Nova.mp3'') =
          keyword_tokens ''night drive'' @ keyword_tokens ''dj nova''"
    using by_branch_features [OF h1 h2] by blast+
  show ?thesis
    using h1 h2 a b by (simp only: s k append.simps simp_thms)
qed

subsection \<open>Smart shuffle of no track or several tracks\<close>

lemma randbelow_less: "0 < n \<Longrightarrow> fst (randbelow n rng) < n"
  by (simp add: randbelow_def split_def Let_def)

lemma shuffle_from_mset:
  "i < length xs \<Longrightarrow> mset (fst (shuffle_from i xs rng)) = mset xs"
proof (induction i arbitrary: xs rng)
  case 0
  then show ?case by simp
next
  case (Suc i)
  let ?j = "fst (randbelow (Suc i + 1) rng)"
  have j: "?j < length xs"
    using randbelow_less [of "Suc i + 1" rng] Suc.prems by simp
  have sw: "mset (xs[Suc i := xs ! ?j, ?j := xs ! Suc i]) = mset xs"
    using Suc.prems j by (simp add: mset_swap)
  have "mset (fst (shuffle_from i (xs[Suc i := xs ! ?j, ?j := xs ! Suc i])
                     (snd (randbelow (Suc i + 1) rng)))) =
        mset (xs[Suc i := xs ! ?j, ?j := xs ! Suc i])"
    using Suc.prems by (intro Suc.IH) simp
  then show ?case using sw by (simp add: split_def Let_def)
qed

lemma shuffle_mset: "mset (fst (shuffle xs rng)) = mset xs"
  by (cases xs) (simp_all add: shuffle_def shuffle_from_mset)

lemma interleave_mset:
  "mset (fst (interleave preferred others pref_idx other_idx result rng)) =
     mset result + mset (drop pref_idx preferred) + mset (drop other_idx others)"
proof (induction preferred others pref_idx other_idx result rng rule: interleave.induct)
  case (1 preferred others pref_idx other_idx result rng)
  let ?pc = "fst (randint 2 3 rng)"
  let ?taken = "take ?pc (drop pref_idx preferred)"
  have split_pref: "mset (drop pref_idx preferred) =
          mset ?taken + mset (drop (pref_idx + length ?taken) preferred)"
  proof -
    have "drop pref_idx preferred = ?taken @ drop ?pc (drop pref_idx preferred)"
      by (simp only: append_take_drop_id)
    moreover have "drop ?pc (drop pref_idx preferred) = drop (pref_idx + length ?taken) preferred"
      by (cases "?pc \<le> length preferred - pref_idx") (simp_all add: min_def add.commute)
    ultimately show ?thesis by (metis mset_append)
  qed
  show ?case
  proof (cases "pref_idx < length preferred \<or> other_idx < length others")
    case False
    then show ?thesis by (subst interleave.simps) simp
  next
    case True
    show ?thesis
    proof (cases "other_idx < length others")
      case o: True
      have so: "mset (drop other_idx others) =
                {#others ! other_idx#} + mset (drop (other_idx + 1) others)"
        using o by (simp add: Cons_nth_drop_Suc [symmetric])
      have "mset (fst (interleave preferred others pref_idx other_idx result rng)) =
            mset (fst (interleave preferred others (pref_idx + length ?taken) (other_idx + 1)
                         ((result @ ?taken) @ [others ! other_idx]) (snd (randint 2 3 rng))))"
        using True o by (subst interleave.simps) (simp add: Let_def)
      also have "\<dots> = mset ((result @ ?taken) @ [others ! other_idx]) +
                        mset (drop (pref_idx + length ?taken) preferred) +
                        mset (drop (other_idx + 1) others)"
        by (rule "1.IH"(1) [OF True refl refl refl refl refl o])
      finally show ?thesis using split_pref so by simp
    next
      case o: False
      have "mset (fst (interleave preferred others pref_idx other_idx result rng)) =
            mset (fst (interleave preferred others (pref_idx + length ?taken) other_idx
                         (result @ ?taken) (snd (randint 2 3 rng))))"
        using True o by (subst interleave.simps) (simp add: Let_def)
      also have "\<dots> = mset (result @ ?taken) +
                        mset (drop (pref_idx + length ?taken) preferred) +
                        mset (drop other_idx others)"
        by (rule "1.IH"(2) [OF True refl refl refl refl refl o])
      finally show ?thesis using split_pref by simp
    qed
  qed
qed

text \<open>
  Away from the single-track case the planner does return a permutation: for the empty
  list and for two or more tracks, the names of the returned order are the input names,
  each as often as it was given, whatever the scores and the random draws.
\<close>

lemma smart_shuffle_permutation:
  assumes "length songs \<noteq> 1"
  shows "mset (map sname (fst (get_smart_shuffle_order e m songs rng))) = mset songs"
proof (cases "songs = []")
  case True
  then show ?thesis by (simp add: get_smart_shuffle_order_def)
next
  case False
  define scored where "scored = sort_desc sscore
     (map (\<lambda>song. \<lparr> sname = song, sscore = score (fst (calculate_song_score e m song)),
                     sdata = fst (calculate_song_score e m song) \<rparr>) songs)"
  have names: "mset (map sname scored) = mset songs"
    by (simp add: scored_def sort_desc_def multiset.map_comp o_def)
  have len: "length scored = length songs"
    by (simp add: scored_def sort_desc_def)
  then have mid: "max 1 (length scored div 2) = length scored div 2"
    using assms False by (cases songs; cases "tl songs") auto
  define p where "p = shuffle (take (length scored div 2) scored) rng"
  define q where "q = shuffle (drop (length scored div 2) scored) (snd p)"
  have res: "get_smart_shuffle_order e m songs rng = interleave (fst p) (fst q) 0 0 [] (snd q)"
    using False mid
    by (simp add: get_smart_shuffle_order_def Let_def split_def p_def q_def scored_def)
  have "mset (fst (interleave (fst p) (fst q) 0 0 [] (snd q))) = mset (fst p) + mset (fst q)"
    by (simp add: interleave_mset)
  also have "\<dots> = mset (take (length scored div 2) scored) + mset (drop (length scored div 2) scored)"
    by (simp add: p_def q_def shuffle_mset)
  also have "\<dots> = mset scored"
    by (metis append_take_drop_id mset_append)
  finally have "mset (fst (get_smart_shuffle_order e m songs rng)) = mset scored"
    using res by simp
  then have "mset (map sname (fst (get_smart_shuffle_order e m songs rng))) = mset (map sname scored)"
    by (metis mset_map)
  then show ?thesis using names by simp
qed

end
